theory Spec2Isabelle
  imports Main "HOL-Library.AList" "HOL-Library.Char_ord" "HOL-Library.List_Lexorder"
begin

section \<open>Strings\<close>

text \<open>
  Strings are lists of characters, read as ASCII code points. The four string methods the
  commands use are written out: \<^verbatim>\<open>str.lower\<close>, \<^verbatim>\<open>str.strip\<close>, \<^verbatim>\<open>str.split(sep)\<close> and
  \<^verbatim>\<open>str.split(sep, 1)\<close>, together with the character class \<^verbatim>\<open>\w\<close> of the regular
  expression module. Characters beyond ASCII are left alone by \<open>str_lower\<close>, are not white
  space and are not word characters here.
\<close>

definition lower_char :: "char \<Rightarrow> char" where
  "lower_char c =
     (case map_of (zip ''ABCDEFGHIJKLMNOPQRSTUVWXYZ'' ''abcdefghijklmnopqrstuvwxyz'') c of
        None \<Rightarrow> c
      | Some l \<Rightarrow> l)"

definition str_lower :: "string \<Rightarrow> string" where
  "str_lower s = map lower_char s"

definition is_space :: "char \<Rightarrow> bool" where
  "is_space c \<longleftrightarrow>
     List.member [CHR 0x09, CHR 0x0A, CHR 0x0B, CHR 0x0C, CHR 0x0D,
                  CHR 0x1C, CHR 0x1D, CHR 0x1E, CHR 0x1F, CHR 0x20] c"

definition str_strip :: "string \<Rightarrow> string" where
  "str_strip s = rev (dropWhile is_space (rev (dropWhile is_space s)))"

fun str_split :: "char \<Rightarrow> string \<Rightarrow> string list" where
  "str_split sep [] = [[]]"
| "str_split sep (c # cs) =
     (if c = sep then [] # str_split sep cs
      else (case str_split sep cs of
              [] \<Rightarrow> [[c]]
            | piece # pieces \<Rightarrow> (c # piece) # pieces))"

definition str_split_once :: "char \<Rightarrow> string \<Rightarrow> string \<times> string" where
  "str_split_once sep s =
     (takeWhile (\<lambda>c. c \<noteq> sep) s, tl (dropWhile (\<lambda>c. c \<noteq> sep) s))"

text \<open>\<^verbatim>\<open>sep.join(pieces)\<close>, the inverse of \<open>str_split\<close>.\<close>

fun str_join :: "char \<Rightarrow> string list \<Rightarrow> string" where
  "str_join sep [] = []"
| "str_join sep [p] = p"
| "str_join sep (p # q # ps) = p @ sep # str_join sep (q # ps)"

definition is_word :: "char \<Rightarrow> bool" where
  "is_word c \<longleftrightarrow>
     List.member
       ''abcdefghijklmnopqrstuvwxyzABCDEFGHIJKLMNOPQRSTUVWXYZ0123456789_'' c"

section \<open>Values, declared types and errors\<close>

text \<open>
  The values a command handles: \<^verbatim>\<open>None\<close>, strings, integers, floats, booleans and lists.
  Floating-point numbers are not interpreted: the type \<open>'f\<close> stands for them.
\<close>

datatype 'f pyval =
    VNone
  | VStr string
  | VInt int
  | VFloat 'f
  | VBool bool
  | VList "'f pyval list"

text \<open>
  A type hint as \<^verbatim>\<open>get_type_hints\<close> returns it. \<open>TList args\<close> is a hint whose
  \<^verbatim>\<open>get_origin\<close> is \<^verbatim>\<open>list\<close>, with its \<^verbatim>\<open>get_args\<close>: \<^verbatim>\<open>List[int]\<close> is \<open>TList [TInt]\<close> and
  the bare \<^verbatim>\<open>typing.List\<close> is \<open>TList []\<close>. \<open>TOther n\<close> is any other hint, by name. A
  parameter without a hint has the declared type \<open>None\<close> of \<open>annotation option\<close>.
\<close>

datatype annotation =
    TStr
  | TInt
  | TFloat
  | TBool
  | TList "annotation list"
  | TOther string

text \<open>
  Every failure the commands report is a \<^verbatim>\<open>CommandError\<close>; the constructors are its message
  templates with their arguments (the text of the underlying exception is left out).
  \<open>AttributeError\<close> is the exception of reading a missing attribute and \<open>KeyError\<close> that
  of subscripting a dictionary with a missing key; these two are not command errors.
\<close>

datatype 'f error =
    TaskNotFound string
  | NoRunMethod string
  | InvalidKwargsFormat
  | CannotCast string string
  | CouldNotCast string "'f pyval" annotation
  | AttributeError string
  | KeyError string

text \<open>
  What the interpreter supplies: \<^verbatim>\<open>int(s)\<close> and \<^verbatim>\<open>float(s)\<close> on a string (\<open>None\<close> when
  they raise \<^verbatim>\<open>ValueError\<close>), and \<open>py_call t v\<close>, calling the type object \<open>t\<close> on \<open>v\<close>
  (\<open>None\<close> when it raises), for the calls that \<open>call_annotation\<close> below does not fix.
\<close>

record 'f builtins =
  py_int :: "string \<Rightarrow> int option"
  py_float :: "string \<Rightarrow> 'f option"
  py_call :: "annotation \<Rightarrow> 'f pyval \<Rightarrow> 'f pyval option"

section \<open>The argument caster\<close>

text \<open>
  The loop \<^verbatim>\<open>for item in items: casted_items.append(...)\<close>: the results in order, or the
  first exception.
\<close>

fun collect :: "('e + 'a) list \<Rightarrow> 'e + 'a list" where
  "collect [] = Inr []"
| "collect (r # rs) =
     (case r of
        Inl e \<Rightarrow> Inl e
      | Inr v \<Rightarrow> (case collect rs of Inl e \<Rightarrow> Inl e | Inr vs \<Rightarrow> Inr (v # vs)))"

text \<open>\<^verbatim>\<open>Command._cast_value(value, annotation)\<close> of \<^verbatim>\<open>celery_tasks.py\<close>.\<close>

fun cast_value :: "'f builtins \<Rightarrow> string \<Rightarrow> annotation option \<Rightarrow> 'f error + 'f pyval" where
  "cast_value B v None = Inr (VStr v)"
| "cast_value B v (Some TStr) = Inr (VStr v)"
| "cast_value B v (Some TInt) =
     (case py_int B v of
        Some n \<Rightarrow> Inr (VInt n)
      | None \<Rightarrow> Inl (CannotCast v ''int''))"
| "cast_value B v (Some TFloat) =
     (case py_float B v of
        Some x \<Rightarrow> Inr (VFloat x)
      | None \<Rightarrow> Inl (CannotCast v ''float''))"
| "cast_value B v (Some TBool) =
     (let lower_val = str_lower v in
      if List.member [''true'', ''1'', ''yes''] lower_val then Inr (VBool True)
      else if List.member [''false'', ''0'', ''no''] lower_val then Inr (VBool False)
      else Inl (CannotCast v ''bool''))"
| "cast_value B v (Some (TList (inner_type # args))) =
     (case collect (map (\<lambda>item. cast_value B (str_strip item) (Some inner_type))
                        (str_split CHR '','' v)) of
        Inl e \<Rightarrow> Inl e
      | Inr casted_items \<Rightarrow> Inr (VList casted_items))"
| "cast_value B v (Some (TList [])) = Inr (VStr v)"
| "cast_value B v (Some (TOther n)) = Inr (VStr v)"

section \<open>The job queue and the output\<close>

text \<open>
  The job queue is an external collaborator with one operation, \<^verbatim>\<open>task.delay(*args, **kwargs)\<close>.
  It is modelled by a log of the calls submitted; the opaque identifier of a submission
  is its position in the log. Keyword arguments are a dictionary in insertion order.
\<close>

record 'f call =
  call_task :: string
  call_args :: "'f pyval list"
  call_kwargs :: "(string \<times> 'f pyval) list"

datatype out_line =
    RegistryHeader
  | TaskLine string
  | Usage
  | TaskCalled string nat
  | CalledTask string nat

record 'f world =
  submitted :: "'f call list"
  stdout :: "out_line list"

section \<open>Jobs and their signatures (discover.py)\<close>

text \<open>
  A parameter of \<^verbatim>\<open>inspect.signature\<close>: \<open>param_default = None\<close> is \<^verbatim>\<open>inspect._empty\<close>, no
  default declared. A job object has a name and may have the entry point \<^verbatim>\<open>run\<close>.
\<close>

record 'f parameter =
  param_name :: string
  param_default :: "'f pyval option"

record 'f func =
  func_name :: string
  parameters :: "'f parameter list"
  type_hints :: "string \<rightharpoonup> annotation"
  doc :: "string option"

record 'f task =
  task_name :: string
  run :: "'f func option"

record 'f param_info =
  pi_name :: string
  pi_annotation :: "annotation option"
  pi_default :: "'f pyval"
  pi_required :: bool

record 'f task_info =
  ti_name :: string
  ti_func_name :: string
  ti_params :: "'f param_info list"
  ti_docstring :: string

definition delay ::
  "'f task \<Rightarrow> 'f pyval list \<Rightarrow> (string \<times> 'f pyval) list \<Rightarrow> 'f world \<Rightarrow> nat \<times> 'f world" where
  "delay task_obj args kwargs w =
     (length (submitted w),
      w\<lparr>submitted := submitted w @
          [\<lparr>call_task = task_name task_obj, call_args = args, call_kwargs = kwargs\<rparr>]\<rparr>)"

text \<open>
  \<^verbatim>\<open>parse_task_signature(task_object)\<close>. Reading \<^verbatim>\<open>task_object.run\<close> raises when the entry
  point is missing; \<^verbatim>\<open>inspect.signature\<close> and \<^verbatim>\<open>get_type_hints\<close> are taken to succeed on
  an entry point, here and in \<open>run_task\<close>. The comparison \<^verbatim>\<open>param.default == inspect._empty\<close> is false for every
  value of \<open>pyval\<close>, so \<open>required\<close> is the test whether a default is declared.
\<close>

definition param_descriptor :: "'f func \<Rightarrow> 'f parameter \<Rightarrow> 'f param_info" where
  "param_descriptor f param =
     \<lparr>pi_name = param_name param,
      pi_annotation = type_hints f (param_name param),
      pi_default = (case param_default param of None \<Rightarrow> VNone | Some d \<Rightarrow> d),
      pi_required = (param_default param = None)\<rparr>"

definition parse_task_signature :: "'f task \<Rightarrow> 'f error + 'f task_info" where
  "parse_task_signature task_object =
     (case run task_object of
        None \<Rightarrow> Inl (AttributeError ''run'')
      | Some f \<Rightarrow>
          Inr \<lparr>ti_name = task_name task_object,
               ti_func_name = func_name f,
               ti_params = map (param_descriptor f) (parameters f),
               ti_docstring = (case doc f of None \<Rightarrow> [] | Some d \<Rightarrow> d)\<rparr>)"

section \<open>The dynamic commands (_dynamic.py)\<close>

text \<open>
  \<^verbatim>\<open>re.sub(r'\W+', '_', name)\<close>: every maximal run of non-word characters becomes one
  underscore.
\<close>

function slugify_command_name :: "string \<Rightarrow> string" where
  "slugify_command_name [] = []"
| "slugify_command_name (c # cs) =
     (if is_word c then c # slugify_command_name cs
      else CHR ''_'' # slugify_command_name (dropWhile (\<lambda>d. \<not> is_word d) cs))"
  by pat_completeness auto
termination
  by (relation "measure length") (auto simp: less_Suc_eq_le length_dropWhile_le)

text \<open>
  The registries \<^verbatim>\<open>register_command\<close> writes: the command registry of the framework
  (command name to module and name) and the globals of the module (command name to the
  class made for the job). Both are dictionaries in insertion order.
\<close>

record 'f command_class =
  cc_name :: string
  cc_help :: string
  cc_task_info :: "'f task_info"
  cc_task_obj :: "'f task"

record 'f registry =
  commands :: "(string \<times> string \<times> string) list"
  globals :: "(string \<times> 'f command_class) list"

definition DynamicCeleryCommand :: "string \<Rightarrow> 'f task_info \<Rightarrow> 'f task \<Rightarrow> 'f command_class" where
  "DynamicCeleryCommand dynamic_name task_info task_obj =
     \<lparr>cc_name = ''Command_'' @ dynamic_name,
      cc_help = (if ti_docstring task_info = [] then ''No description available.''
                 else ti_docstring task_info),
      cc_task_info = task_info,
      cc_task_obj = task_obj\<rparr>"

definition register_command ::
  "string \<Rightarrow> 'f task_info \<Rightarrow> 'f task \<Rightarrow> 'f registry \<Rightarrow> 'f registry" where
  "register_command command_name task_info task_obj reg =
     (let dynamic_name = slugify_command_name command_name
      in \<lparr>commands =
            AList.update dynamic_name
              (''django_celery_commands.management.commands._dynamic'', dynamic_name)
              (commands reg),
          globals =
            AList.update dynamic_name (DynamicCeleryCommand dynamic_name task_info task_obj)
              (globals reg)\<rparr>)"

text \<open>
  \<^verbatim>\<open>p_type(val)\<close> in \<^verbatim>\<open>DynamicCeleryCommand.handle\<close>: the declared type is called on the
  value. On a string, \<^verbatim>\<open>str\<close> returns it, \<^verbatim>\<open>int\<close> and \<^verbatim>\<open>float\<close> parse it and \<^verbatim>\<open>bool\<close> is
  its truth value (a string is true unless it is empty). \<open>None\<close> is any exception.
\<close>

fun call_annotation :: "'f builtins \<Rightarrow> annotation \<Rightarrow> 'f pyval \<Rightarrow> 'f pyval option" where
  "call_annotation B TStr (VStr s) = Some (VStr s)"
| "call_annotation B TInt (VStr s) = map_option VInt (py_int B s)"
| "call_annotation B TFloat (VStr s) = map_option VFloat (py_float B s)"
| "call_annotation B TBool (VStr s) = Some (VBool (s \<noteq> []))"
| "call_annotation B t v = py_call B t v"

text \<open>The body of the loop over \<^verbatim>\<open>task_info['params']\<close>: the value stored for one parameter.\<close>

definition cast_option :: "'f builtins \<Rightarrow> 'f param_info \<Rightarrow> 'f pyval \<Rightarrow> 'f error + 'f pyval" where
  "cast_option B param val =
     (case pi_annotation param of
        None \<Rightarrow> Inr val
      | Some p_type \<Rightarrow>
          if val \<noteq> VNone then
            (case call_annotation B p_type val of
               Some v \<Rightarrow> Inr v
             | None \<Rightarrow> Inl (CouldNotCast (pi_name param) val p_type))
          else Inr val)"

definition options_get :: "(string \<rightharpoonup> 'f pyval) \<Rightarrow> string \<Rightarrow> 'f pyval" where
  "options_get options p_name = (case options p_name of None \<Rightarrow> VNone | Some v \<Rightarrow> v)"

fun handle_params ::
  "'f builtins \<Rightarrow> 'f param_info list \<Rightarrow> (string \<rightharpoonup> 'f pyval) \<Rightarrow> (string \<times> 'f pyval) list
   \<Rightarrow> 'f error + (string \<times> 'f pyval) list" where
  "handle_params B [] options final_kwargs = Inr final_kwargs"
| "handle_params B (param # params) options final_kwargs =
     (case cast_option B param (options_get options (pi_name param)) of
        Inl e \<Rightarrow> Inl e
      | Inr val \<Rightarrow>
          handle_params B params options (AList.update (pi_name param) val final_kwargs))"

definition DynamicCeleryCommand_handle ::
  "'f builtins \<Rightarrow> 'f task_info \<Rightarrow> 'f task \<Rightarrow> (string \<rightharpoonup> 'f pyval) \<Rightarrow> 'f world
   \<Rightarrow> 'f error option \<times> 'f world" where
  "DynamicCeleryCommand_handle B task_info task_obj options w =
     (case handle_params B (ti_params task_info) options [] of
        Inl e \<Rightarrow> (Some e, w)
      | Inr final_kwargs \<Rightarrow>
          (let (result_id, w') = delay task_obj [] final_kwargs w
           in (None, w'\<lparr>stdout := stdout w' @ [CalledTask (ti_name task_info) result_id]\<rparr>)))"

section \<open>Registration at start-up (apps.py)\<close>

text \<open>
  \<^verbatim>\<open>DjangoCeleryCommandsConfig.ready\<close>: every job of the registry is introspected and
  registered under its function name. An exception leaves the registrations made so far.
\<close>

fun ready :: "(string \<times> 'f task) list \<Rightarrow> 'f registry \<Rightarrow> 'f error option \<times> 'f registry" where
  "ready [] reg = (None, reg)"
| "ready ((name, task_obj) # tasks) reg =
     (case parse_task_signature task_obj of
        Inl e \<Rightarrow> (Some e, reg)
      | Inr task_info \<Rightarrow>
          ready tasks (register_command (ti_func_name task_info) task_info task_obj reg))"

section \<open>The generic invoker command (celery_tasks.py)\<close>

text \<open>
  The options that \<^verbatim>\<open>handle\<close> receives. The parser stores every destination, with
  \<^verbatim>\<open>None\<close> for an option that is not given, so \<^verbatim>\<open>task_name\<close> and \<^verbatim>\<open>kwargs\<close> are always
  there. The framework takes the destination \<^verbatim>\<open>args\<close> out of the options before it calls
  \<^verbatim>\<open>handle\<close> (it passes those values as positional arguments), so the key \<^verbatim>\<open>args\<close> is there
  only when \<^verbatim>\<open>handle\<close> is called directly with it: \<open>NoKey\<close> is an options dictionary
  without the key, and \<^verbatim>\<open>options["args"]\<close> raises on it.
\<close>

datatype 'a entry = NoKey | Key 'a

record cli_options =
  opt_task_name :: "string option"
  opt_args :: "string list option entry"
  opt_kwargs :: "string list option"

definition list_all_tasks :: "(string \<times> 'f task) list \<Rightarrow> 'f world \<Rightarrow> 'f world" where
  "list_all_tasks tasks w =
     w\<lparr>stdout := stdout w @ [RegistryHeader] @ map TaskLine (sort (map fst tasks)) @ [Usage]\<rparr>"

text \<open>The loop over \<^verbatim>\<open>enumerate(positional_args_raw)\<close>.\<close>

fun cast_positional ::
  "'f builtins \<Rightarrow> 'f parameter list \<Rightarrow> (string \<rightharpoonup> annotation) \<Rightarrow> nat \<Rightarrow> string list
   \<Rightarrow> 'f pyval list \<Rightarrow> 'f error + 'f pyval list" where
  "cast_positional B sig_params hints i [] final_args = Inr final_args"
| "cast_positional B sig_params hints i (raw_value # rest) final_args =
     (if i \<ge> length sig_params then
        cast_positional B sig_params hints (Suc i) rest (final_args @ [VStr raw_value])
      else
        (case cast_value B raw_value (hints (param_name (sig_params ! i))) of
           Inl e \<Rightarrow> Inl e
         | Inr v \<Rightarrow> cast_positional B sig_params hints (Suc i) rest (final_args @ [v])))"

text \<open>The loop over \<^verbatim>\<open>kwargs_raw\<close>.\<close>

fun cast_keywords ::
  "'f builtins \<Rightarrow> (string \<rightharpoonup> annotation) \<Rightarrow> string list \<Rightarrow> (string \<times> 'f pyval) list
   \<Rightarrow> 'f error + (string \<times> 'f pyval) list" where
  "cast_keywords B hints [] final_kwargs = Inr final_kwargs"
| "cast_keywords B hints (raw_kv # rest) final_kwargs =
     (if CHR ''='' \<notin> set raw_kv then Inl InvalidKwargsFormat
      else
        (let (k, v) = str_split_once CHR ''='' raw_kv in
         case cast_value B v (hints k) of
           Inl e \<Rightarrow> Inl e
         | Inr val \<Rightarrow> cast_keywords B hints rest (AList.update k val final_kwargs)))"

definition run_task ::
  "'f builtins \<Rightarrow> (string \<times> 'f task) list \<Rightarrow> string \<Rightarrow> cli_options \<Rightarrow> 'f world
   \<Rightarrow> 'f error option \<times> 'f world" where
  "run_task B tasks name options w =
     (case map_of tasks name of
        None \<Rightarrow> (Some (TaskNotFound name), w)
      | Some task_obj \<Rightarrow>
          (case run task_obj of
             None \<Rightarrow> (Some (NoRunMethod name), w)
           | Some f \<Rightarrow>
               (case opt_args options of
                  NoKey \<Rightarrow> (Some (KeyError ''args''), w)
                | Key args \<Rightarrow>
                    (let positional_args_raw = (case args of None \<Rightarrow> [] | Some xs \<Rightarrow> xs);
                         kwargs_raw = (case opt_kwargs options of None \<Rightarrow> [] | Some xs \<Rightarrow> xs)
                     in case cast_positional B (parameters f) (type_hints f) 0
                               positional_args_raw [] of
                          Inl e \<Rightarrow> (Some e, w)
                        | Inr final_args \<Rightarrow>
                            (case cast_keywords B (type_hints f) kwargs_raw [] of
                               Inl e \<Rightarrow> (Some e, w)
                             | Inr final_kwargs \<Rightarrow>
                                 (let (result_id, w') = delay task_obj final_args final_kwargs w
                                  in (None,
                                      w'\<lparr>stdout := stdout w' @ [TaskCalled name result_id]\<rparr>)))))))"

definition Command_handle ::
  "'f builtins \<Rightarrow> (string \<times> 'f task) list \<Rightarrow> cli_options \<Rightarrow> 'f world \<Rightarrow> 'f error option \<times> 'f world" where
  "Command_handle B tasks options w =
     (case opt_task_name options of
        None \<Rightarrow> (None, list_all_tasks tasks w)
      | Some name \<Rightarrow>
          if name = [] then (None, list_all_tasks tasks w)
          else run_task B tasks name options w)"

section \<open>An instance of the interpreter\<close>

text \<open>
  For evaluating the commands on concrete inputs: \<open>decimal_int\<close> reads an optionally signed
  run of ASCII digits between white space, \<open>decimal_float\<close> a plain decimal numeral without
  exponent, as a scaled integer (\<open>(314, 2)\<close> stands for 3.14), and every call of a type
  object that \<open>call_annotation\<close> does not fix raises (as \<^verbatim>\<open>typing.List[int]\<close> does, which
  cannot be instantiated).
\<close>

definition digit_value :: "char \<Rightarrow> nat option" where
  "digit_value c = map_of (zip ''0123456789'' [0, 1, 2, 3, 4, 5, 6, 7, 8, 9]) c"

fun digits_value :: "string \<Rightarrow> nat \<Rightarrow> nat option" where
  "digits_value [] acc = Some acc"
| "digits_value (c # cs) acc =
     (case digit_value c of None \<Rightarrow> None | Some d \<Rightarrow> digits_value cs (10 * acc + d))"

definition signed_decimal :: "string \<Rightarrow> int option" where
  "signed_decimal s =
     (case s of
        [] \<Rightarrow> None
      | c # cs \<Rightarrow>
          if c = CHR ''-'' then (if cs = [] then None else map_option (\<lambda>n. - int n) (digits_value cs 0))
          else if c = CHR ''+'' then (if cs = [] then None else map_option int (digits_value cs 0))
          else map_option int (digits_value s 0))"

definition decimal_int :: "string \<Rightarrow> int option" where
  "decimal_int s = signed_decimal (str_strip s)"

definition decimal_float :: "string \<Rightarrow> (int \<times> nat) option" where
  "decimal_float s =
     (let (whole, frac) = str_split_once CHR ''.'' (str_strip s)
      in map_option (\<lambda>m. (m, length frac)) (signed_decimal (whole @ frac)))"

definition ascii_builtins :: "(int \<times> nat) builtins" where
  "ascii_builtins = \<lparr>py_int = decimal_int, py_float = decimal_float, py_call = (\<lambda>t v. None)\<rparr>"

section \<open>The handle contract of the specification\<close>



section \<open>Example jobs\<close>

text \<open>
  A job named \<^verbatim>\<open>my_app.tasks.sample_run\<close> whose entry point is the plain function
  \<^verbatim>\<open>def sample_run(a: int, b: int = 3)\<close> of \<^verbatim>\<open>tests/test_discovery.py\<close>, with its docstring
  (as a plain function the entry point keeps both parameters in its signature).
\<close>

definition sample_run :: "'f func" where
  "sample_run =
     \<lparr>func_name = ''sample_run'',
      parameters = [\<lparr>param_name = ''a'', param_default = None\<rparr>,
                    \<lparr>param_name = ''b'', param_default = Some (VInt 3)\<rparr>],
      type_hints = [''a'' \<mapsto> TInt, ''b'' \<mapsto> TInt],
      doc = Some ''Sample docstring.''\<rparr>"

definition FakeTask :: "'f task" where
  "FakeTask = \<lparr>task_name = ''my_app.tasks.sample_run'', run = Some sample_run\<rparr>"

text \<open>What \<open>parse_task_signature\<close> gives for \<open>FakeTask\<close>.\<close>

definition sample_run_info :: "'f task_info" where
  "sample_run_info =
     \<lparr>ti_name = ''my_app.tasks.sample_run'',
      ti_func_name = ''sample_run'',
      ti_params =
        [\<lparr>pi_name = ''a'', pi_annotation = Some TInt, pi_default = VNone, pi_required = True\<rparr>,
         \<lparr>pi_name = ''b'', pi_annotation = Some TInt, pi_default = VInt 3, pi_required = False\<rparr>],
      ti_docstring = ''Sample docstring.''\<rparr>"

text \<open>
  Two more: \<^verbatim>\<open>def purge(dry_run: bool, ids: List[int], note=None)\<close>, registered as
  \<^verbatim>\<open>my_app.tasks.purge\<close>, with the descriptors \<open>parse_task_signature\<close> gives for it, and a
  job object without the entry point \<^verbatim>\<open>run\<close>.
\<close>

definition purge :: "'f func" where
  "purge =
     \<lparr>func_name = ''purge'',
      parameters = [\<lparr>param_name = ''dry_run'', param_default = None\<rparr>,
                    \<lparr>param_name = ''ids'', param_default = None\<rparr>,
                    \<lparr>param_name = ''note'', param_default = Some VNone\<rparr>],
      type_hints = [''dry_run'' \<mapsto> TBool, ''ids'' \<mapsto> TList [TInt]],
      doc = None\<rparr>"

definition purge_task :: "'f task" where
  "purge_task = \<lparr>task_name = ''my_app.tasks.purge'', run = Some purge\<rparr>"

definition purge_info :: "'f task_info" where
  "purge_info =
     \<lparr>ti_name = ''my_app.tasks.purge'',
      ti_func_name = ''purge'',
      ti_params =
        [\<lparr>pi_name = ''dry_run'', pi_annotation = Some TBool, pi_default = VNone, pi_required = True\<rparr>,
         \<lparr>pi_name = ''ids'', pi_annotation = Some (TList [TInt]), pi_default = VNone,
          pi_required = True\<rparr>,
         \<lparr>pi_name = ''note'', pi_annotation = None, pi_default = VNone, pi_required = False\<rparr>],
      ti_docstring = []\<rparr>"

definition bare_task :: "'f task" where
  "bare_task = \<lparr>task_name = ''my_app.tasks.bare'', run = None\<rparr>"

definition example_tasks :: "(string \<times> 'f task) list" where
  "example_tasks =
     [(''my_app.tasks.sample_run'', FakeTask),
      (''my_app.tasks.purge'', purge_task),
      (''my_app.tasks.bare'', bare_task)]"

definition empty_world :: "'f world" where
  "empty_world = \<lparr>submitted = [], stdout = []\<rparr>"

definition empty_registry :: "'f registry" where
  "empty_registry = \<lparr>commands = [], globals = []\<rparr>"

section \<open>Facts about the string operations\<close>

text \<open>
  \<open>str_split\<close> is the split on a separator: joining the pieces gives the string back and
  no piece holds the separator. \<open>str_strip\<close> removes white space at both ends and nothing
  else.
\<close>

lemma str_split_nonempty: "str_split sep s \<noteq> []"
  by (induction s) (auto split: list.splits)

lemma str_join_Cons: "str_join sep ((a # p) # ps) = a # str_join sep (p # ps)"
  by (cases ps) simp_all

lemma str_join_split: "str_join sep (str_split sep s) = s"
  by (induction s) (auto split: list.splits simp: str_split_nonempty str_join_Cons)

lemma str_split_pieces: "p \<in> set (str_split sep s) \<Longrightarrow> sep \<notin> set p"
  by (induction s arbitrary: p) (auto split: list.splits if_splits)


lemma str_strip_decomp:
  "\<exists>a b. s = a @ str_strip s @ b \<and> list_all is_space a \<and> list_all is_space b"
proof -
  define a where "a = takeWhile is_space s"
  define t where "t = dropWhile is_space s"
  define b where "b = rev (takeWhile is_space (rev t))"
  have 1: "a @ t = s" by (simp add: a_def t_def)
  have "rev t = takeWhile is_space (rev t) @ dropWhile is_space (rev t)" by simp
  then have "t = rev (dropWhile is_space (rev t)) @ b"
    unfolding b_def by (metis rev_append rev_rev_ident)
  then have 2: "str_strip s @ b = t"
    by (simp add: str_strip_def t_def)
  have 3: "list_all is_space a" unfolding a_def list_all_iff by (auto dest: set_takeWhileD)
  have 4: "list_all is_space b" unfolding b_def list_all_iff by (auto dest: set_takeWhileD)
  have "s = a @ str_strip s @ b" by (simp add: 1 2)
  with 3 4 show ?thesis by blast
qed

lemma str_strip_ends:
  "str_strip s \<noteq> [] \<Longrightarrow> \<not> is_space (hd (str_strip s)) \<and> \<not> is_space (last (str_strip s))"
proof -
  assume ne: "str_strip s \<noteq> []"
  let ?t = "dropWhile is_space s"
  let ?u = "dropWhile is_space (rev ?t)"
  from ne have u: "?u \<noteq> []" by (simp add: str_strip_def)
  have s_eq: "str_strip s = rev ?u" by (simp only: str_strip_def)
  from u have "\<not> is_space (hd ?u)" by (rule hd_dropWhile)
  moreover from u have "last (rev ?u) = hd ?u" by (cases "?u") simp_all
  ultimately have l: "\<not> is_space (last (str_strip s))" by (metis s_eq)
  have t: "?t \<noteq> []"
  proof
    assume "?t = []"
    then have "?u = []" by (metis dropWhile.simps(1) rev.simps(1))
    with u show False by simp
  qed
  then have h: "\<not> is_space (hd ?t)" by (rule hd_dropWhile)
  have "rev ?t = takeWhile is_space (rev ?t) @ ?u" by simp
  then have "?t = rev ?u @ rev (takeWhile is_space (rev ?t))"
    by (metis rev_append rev_rev_ident)
  with u have "hd ?t = hd (rev ?u)" by (metis hd_append2 rev_is_Nil_conv)
  with h have "\<not> is_space (hd (str_strip s))" by (metis s_eq)
  with l show ?thesis by simp
qed

section \<open>Facts about the collecting loop\<close>

lemma collect_map_Inr: "collect (map Inr vs) = Inr vs"
  by (induction vs) simp_all

lemma collect_Inr: "collect rs = Inr vs \<longleftrightarrow> rs = map Inr vs"
proof
  show "collect rs = Inr vs \<Longrightarrow> rs = map Inr vs"
    by (induction rs arbitrary: vs) (auto split: sum.splits)
  show "rs = map Inr vs \<Longrightarrow> collect rs = Inr vs"
    by (simp add: collect_map_Inr)
qed

lemma collect_Inl:
  "collect rs = Inl e \<longleftrightarrow> (\<exists>vs post. rs = map Inr vs @ Inl e # post)"
proof (induction rs)
  case Nil
  then show ?case by simp
next
  case (Cons r rs)
  show ?case
  proof (cases r)
    case (Inl e')
    then show ?thesis
      by (auto simp: Cons_eq_append_conv Cons_eq_map_conv)
  next
    case (Inr v)
    show ?thesis
    proof
      assume "collect (r # rs) = Inl e"
      with Inr Cons.IH obtain vs post where "rs = map Inr vs @ Inl e # post"
        by (auto split: sum.splits)
      with Inr have "r # rs = map Inr (v # vs) @ Inl e # post" by simp
      then show "\<exists>vs post. r # rs = map Inr vs @ Inl e # post" by blast
    next
      assume "\<exists>vs post. r # rs = map Inr vs @ Inl e # post"
      then obtain vs post where eq: "r # rs = map Inr vs @ Inl e # post" by blast
      with Inr obtain vs' where "vs = v # vs'" by (cases vs) auto
      with eq have "rs = map Inr vs' @ Inl e # post" by simp
      with Cons.IH have "collect rs = Inl e" by blast
      with Inr show "collect (r # rs) = Inl e" by simp
    qed
  qed
qed

lemma map_eq_map_Inr:
  "map f xs = map Inr vs \<longleftrightarrow> list_all2 (\<lambda>x v. f x = Inr v) xs vs"
proof -
  have "map f xs = map Inr vs \<longleftrightarrow> list_all2 (=) (map f xs) (map Inr vs)"
    by (simp add: list.rel_eq)
  then show ?thesis by (simp add: list.rel_map)
qed

lemma collect_map_Inl:
  "collect (map f xs) = Inl e \<longleftrightarrow>
     (\<exists>pre x post. xs = pre @ x # post \<and> list_all (\<lambda>p. \<exists>v. f p = Inr v) pre \<and> f x = Inl e)"
proof
  assume "collect (map f xs) = Inl e"
  then obtain vs post' where "map f xs = map Inr vs @ Inl e # post'"
    by (auto simp: collect_Inl)
  then obtain pre x post where xs: "xs = pre @ x # post" and pre: "map f pre = map Inr vs"
    and x: "f x = Inl e"
    by (auto simp: map_eq_append_conv map_eq_Cons_conv)
  from pre have "list_all2 (\<lambda>p v. f p = Inr v) pre vs" by (simp add: map_eq_map_Inr)
  then have "list_all (\<lambda>p. \<exists>v. f p = Inr v) pre"
    by (auto simp: list_all_iff list_all2_conv_all_nth in_set_conv_nth)
  with xs x show "\<exists>pre x post. xs = pre @ x # post \<and> list_all (\<lambda>p. \<exists>v. f p = Inr v) pre \<and> f x = Inl e"
    by blast
next
  assume "\<exists>pre x post. xs = pre @ x # post \<and> list_all (\<lambda>p. \<exists>v. f p = Inr v) pre \<and> f x = Inl e"
  then obtain pre x post where xs: "xs = pre @ x # post"
    and pre: "list_all (\<lambda>p. \<exists>v. f p = Inr v) pre" and x: "f x = Inl e"
    by blast
  from pre have "\<exists>vs. map f pre = map Inr vs"
  proof (induction pre)
    case Nil
    then show ?case by simp
  next
    case (Cons p pre)
    then obtain v vs where "f p = Inr v" and "map f pre = map Inr vs" by auto
    then have "map f (p # pre) = map Inr (v # vs)" by simp
    then show ?case by blast
  qed
  then obtain vs where "map f pre = map Inr vs" by blast
  with xs x have "map f xs = map Inr vs @ Inl e # map f post" by simp
  then show "collect (map f xs) = Inl e" by (auto simp: collect_Inl)
qed

section \<open>The argument caster: claims\<close>

text \<open>
  C2. With a boolean declared type the cast is a match on the lowercase form of the
  string: a string whose lowercase form is \<open>true\<close>, \<open>1\<close> or \<open>yes\<close> gives true, one whose
  lowercase form is \<open>false\<close>, \<open>0\<close> or \<open>no\<close> gives false, and every other string fails
  with the cast error of the boolean type.
\<close>

theorem cast_value_bool:
  "cast_value B x (Some TBool) =
     (if str_lower x \<in> {''true'', ''1'', ''yes''} then Inr (VBool True)
      else if str_lower x \<in> {''false'', ''0'', ''no''} then Inr (VBool False)
      else Inl (CannotCast x ''bool''))"
  by (simp add: Let_def)

theorem cast_value_bool_witness:
  "cast_value ascii_builtins ''true'' (Some TBool) = Inr (VBool True)
   \<and> cast_value ascii_builtins ''No'' (Some TBool) = Inr (VBool False)
   \<and> cast_value ascii_builtins ''YES'' (Some TBool) = Inr (VBool True)
   \<and> cast_value ascii_builtins ''0'' (Some TBool) = Inr (VBool False)
   \<and> cast_value ascii_builtins ''maybe'' (Some TBool) = Inl (CannotCast ''maybe'' ''bool'')"
  using cast_value_bool [of ascii_builtins "''true''"]
    cast_value_bool [of ascii_builtins "''No''"]
    cast_value_bool [of ascii_builtins "''YES''"]
    cast_value_bool [of ascii_builtins "''0''"]
    cast_value_bool [of ascii_builtins "''maybe''"]
  by (simp add: str_lower_def lower_char_def)

text \<open>
  C3. With the declared type list-of(T) the cast splits the raw string on the comma,
  strips white space from each piece, casts each stripped piece against T and returns
  the results in order: it returns a value exactly when that value is the list of the
  pieces' casts, and it fails exactly with the error of the first piece that fails.
\<close>

theorem cast_value_list:
  "(cast_value B raw (Some (TList (T # Ts))) = Inr r \<longleftrightarrow>
      (\<exists>vs. r = VList vs \<and>
            list_all2 (\<lambda>item v. cast_value B (str_strip item) (Some T) = Inr v)
              (str_split CHR '','' raw) vs))
   \<and> (cast_value B raw (Some (TList (T # Ts))) = Inl e \<longleftrightarrow>
      (\<exists>pre item post. str_split CHR '','' raw = pre @ item # post
         \<and> list_all (\<lambda>p. \<exists>v. cast_value B (str_strip p) (Some T) = Inr v) pre
         \<and> cast_value B (str_strip item) (Some T) = Inl e))"
proof -
  let ?f = "\<lambda>item. cast_value B (str_strip item) (Some T)"
  let ?rs = "map ?f (str_split CHR '','' raw)"
  have "cast_value B raw (Some (TList (T # Ts))) = Inr r \<longleftrightarrow>
          (\<exists>vs. r = VList vs \<and> collect ?rs = Inr vs)"
    by (cases "collect ?rs") auto
  then have ok: "cast_value B raw (Some (TList (T # Ts))) = Inr r \<longleftrightarrow>
      (\<exists>vs. r = VList vs \<and> list_all2 (\<lambda>item v. ?f item = Inr v) (str_split CHR '','' raw) vs)"
    by (simp add: collect_Inr map_eq_map_Inr)
  have "cast_value B raw (Some (TList (T # Ts))) = Inl e \<longleftrightarrow> collect ?rs = Inl e"
    by (cases "collect ?rs") auto
  then have bad: "cast_value B raw (Some (TList (T # Ts))) = Inl e \<longleftrightarrow>
      (\<exists>pre item post. str_split CHR '','' raw = pre @ item # post
         \<and> list_all (\<lambda>p. \<exists>v. ?f p = Inr v) pre \<and> ?f item = Inl e)"
    by (simp only: collect_map_Inl)
  from ok bad show ?thesis by blast
qed

theorem cast_value_list_witness:
  "cast_value ascii_builtins ''1, 2,3'' (Some (TList [TInt])) = Inr (VList [VInt 1, VInt 2, VInt 3])"
proof -
  have "list_all2 (\<lambda>item v. cast_value ascii_builtins (str_strip item) (Some TInt) = Inr v)
          (str_split CHR '','' ''1, 2,3'') [VInt 1, VInt 2, VInt 3]"
    by (simp add: ascii_builtins_def decimal_int_def signed_decimal_def digit_value_def
          str_strip_def is_space_def)
  then show ?thesis
    using cast_value_list [of ascii_builtins "''1, 2,3''" TInt "[]" "VList [VInt 1, VInt 2, VInt 3]"]
    by blast
qed

text \<open>
  C4. With an integer declared type the cast returns the integer that \<^verbatim>\<open>int\<close> parses and
  fails with the cast error of the integer type when \<^verbatim>\<open>int\<close> raises; with a float declared
  type it returns the float that \<^verbatim>\<open>float\<close> parses and fails with the cast error of the
  float type when \<^verbatim>\<open>float\<close> raises. An unparseable string is never returned as a value.
\<close>

theorem cast_value_int_float:
  "cast_value B x (Some TInt) =
     (case py_int B x of Some n \<Rightarrow> Inr (VInt n) | None \<Rightarrow> Inl (CannotCast x ''int''))
   \<and> cast_value B x (Some TFloat) =
     (case py_float B x of Some y \<Rightarrow> Inr (VFloat y) | None \<Rightarrow> Inl (CannotCast x ''float''))"
  by simp

theorem cast_value_int_float_witness:
  "cast_value ascii_builtins ''42'' (Some TInt) = Inr (VInt 42)
   \<and> cast_value ascii_builtins ''abc'' (Some TInt) = Inl (CannotCast ''abc'' ''int'')
   \<and> cast_value ascii_builtins ''3.14'' (Some TFloat) = Inr (VFloat (314, 2))
   \<and> cast_value ascii_builtins ''abc'' (Some TFloat) = Inl (CannotCast ''abc'' ''float'')"
  using cast_value_int_float [of ascii_builtins "''42''"]
    cast_value_int_float [of ascii_builtins "''abc''"]
    cast_value_int_float [of ascii_builtins "''3.14''"]
  by (simp add: ascii_builtins_def decimal_int_def decimal_float_def signed_decimal_def
        digit_value_def str_strip_def str_split_once_def is_space_def)

text \<open>
  C5. The cast is the identity on the raw string when there is no declared type, when
  the declared type is the string type, and when it is any type other than integer,
  float, boolean and a list type with an element type: the raw string is returned and
  no error is raised.
\<close>

theorem cast_value_identity:
  "cast_value B x None = Inr (VStr x)
   \<and> (t \<notin> {TInt, TFloat, TBool} \<and> (\<forall>T Ts. t \<noteq> TList (T # Ts))
        \<longrightarrow> cast_value B x (Some t) = Inr (VStr x))"
proof -
  have "cast_value B x (Some t) = Inr (VStr x)"
    if "t \<notin> {TInt, TFloat, TBool}" and "\<forall>T Ts. t \<noteq> TList (T # Ts)"
  proof (cases t)
    case (TList args)
    with that(2) show ?thesis by (cases args) simp_all
  qed (use that(1) in simp_all)
  then show ?thesis by simp
qed

theorem cast_value_identity_witness:
  "cast_value ascii_builtins ''12'' None = Inr (VStr ''12'')
   \<and> cast_value ascii_builtins ''12'' (Some TStr) = Inr (VStr ''12'')
   \<and> cast_value ascii_builtins ''12'' (Some (TOther ''Optional[int]'')) = Inr (VStr ''12'')
   \<and> cast_value ascii_builtins ''1,2'' (Some (TList [])) = Inr (VStr ''1,2'')"
  using cast_value_identity [of ascii_builtins "''12''" TStr]
    cast_value_identity [of ascii_builtins "''12''" "TOther ''Optional[int]''"]
    cast_value_identity [of ascii_builtins "''1,2''" "TList []"]
  by simp

section \<open>The signature introspector: claims\<close>

text \<open>
  C6. For a job with the entry point \<^verbatim>\<open>run\<close>, the introspector returns one descriptor per
  parameter, in declaration order, and in each descriptor the required flag is true
  exactly when the parameter declares no default: without a default the descriptor has
  the default none and is required; with a default, whatever its value, the descriptor
  keeps that default and is not required.
\<close>

theorem parse_task_signature_required:
  "run task_object = Some f \<Longrightarrow>
   \<exists>info. parse_task_signature task_object = Inr info
     \<and> list_all2
          (\<lambda>param d.
             pi_name d = param_name param
             \<and> (pi_required d \<longleftrightarrow> param_default param = None)
             \<and> (case param_default param of
                  None \<Rightarrow> pi_default d = VNone \<and> pi_required d
                | Some v \<Rightarrow> pi_default d = v \<and> \<not> pi_required d))
          (parameters f) (ti_params info)"
  by (auto simp: parse_task_signature_def param_descriptor_def list_all2_map2
        list_all2_same split: option.splits)

theorem parse_task_signature_required_witness:
  "(\<exists>info. parse_task_signature (FakeTask :: (int \<times> nat) task) = Inr info
     \<and> map pi_name (ti_params info) = [''a'', ''b'']
     \<and> map pi_required (ti_params info) = [True, False]
     \<and> map pi_default (ti_params info) = [VNone, VInt 3])
   \<and> (\<exists>info. parse_task_signature (purge_task :: (int \<times> nat) task) = Inr info
     \<and> map pi_name (ti_params info) = [''dry_run'', ''ids'', ''note'']
     \<and> map pi_required (ti_params info) = [True, True, False]
     \<and> map pi_default (ti_params info) = [VNone, VNone, VNone])"
  using parse_task_signature_required [of "FakeTask :: (int \<times> nat) task" sample_run]
    parse_task_signature_required [of "purge_task :: (int \<times> nat) task" purge]
  by (auto simp: FakeTask_def sample_run_def purge_task_def purge_def
        parse_task_signature_def param_descriptor_def)

section \<open>The generic invoker: claims\<close>

lemma Command_handle_run_task:
  "opt_task_name options = Some name \<Longrightarrow> name \<noteq> [] \<Longrightarrow>
   Command_handle B tasks options w = run_task B tasks name options w"
  by (simp add: Command_handle_def)

lemma str_split_once_first:
  "sep \<in> set t \<Longrightarrow> str_split_once sep t = (k, v) \<Longrightarrow> t = k @ sep # v \<and> sep \<notin> set k"
proof -
  assume mem: "sep \<in> set t" and eq: "str_split_once sep t = (k, v)"
  let ?P = "\<lambda>c. c \<noteq> sep"
  from eq have k: "k = takeWhile ?P t" and v: "v = tl (dropWhile ?P t)"
    by (simp_all add: str_split_once_def)
  from mem have ne: "dropWhile ?P t \<noteq> []" by (auto simp: dropWhile_eq_Nil_conv)
  then have "\<not> ?P (hd (dropWhile ?P t))" by (rule hd_dropWhile)
  then have "hd (dropWhile ?P t) = sep" by simp
  with ne v have "dropWhile ?P t = sep # v" by (cases "dropWhile ?P t") simp_all
  moreover have "t = takeWhile ?P t @ dropWhile ?P t" by simp
  ultimately have "t = k @ sep # v" using k by metis
  moreover have "sep \<notin> set k" using k by (auto dest: set_takeWhileD)
  ultimately show ?thesis by simp
qed

lemma cast_keywords_malformed:
  "\<exists>t \<in> set toks. CHR ''='' \<notin> set t \<Longrightarrow> \<exists>e. cast_keywords B hints toks acc = Inl e"
  by (induction toks arbitrary: acc) (auto split: prod.splits sum.splits)

lemma cast_keywords_first_malformed:
  "list_all (\<lambda>t. CHR ''='' \<in> set t \<and>
      (\<exists>val. cast_value B (snd (str_split_once CHR ''='' t))
                (hints (fst (str_split_once CHR ''='' t))) = Inr val)) pre \<Longrightarrow>
   CHR ''='' \<notin> set bad \<Longrightarrow>
   cast_keywords B hints (pre @ bad # post) acc = Inl InvalidKwargsFormat"
  by (induction pre arbitrary: acc) (auto split: prod.splits sum.splits)

lemma cast_keywords_split_once:
  assumes "CHR ''='' \<in> set t"
  shows "\<exists>k v. t = k @ CHR ''='' # v \<and> CHR ''='' \<notin> set k
         \<and> cast_keywords B hints (t # rest) acc =
             (case cast_value B v (hints k) of
                Inl e \<Rightarrow> Inl e
              | Inr val \<Rightarrow> cast_keywords B hints rest (AList.update k val acc))"
proof -
  obtain k v where kv: "str_split_once CHR ''='' t = (k, v)"
    by (cases "str_split_once CHR ''='' t")
  with assms have "t = k @ CHR ''='' # v \<and> CHR ''='' \<notin> set k" by (rule str_split_once_first)
  moreover from assms kv have "cast_keywords B hints (t # rest) acc =
      (case cast_value B v (hints k) of
         Inl e \<Rightarrow> Inl e
       | Inr val \<Rightarrow> cast_keywords B hints rest (AList.update k val acc))"
    by simp
  ultimately show ?thesis by blast
qed

text \<open>
  With the key \<^verbatim>\<open>args\<close> in the options the keyword tokens are reached: the invocation
  fails with the format error at the first token without \<open>=\<close>, when the job is found and
  has its entry point, every positional value casts, and every token before is well
  formed and casts.
\<close>

lemma run_task_format_error_direct:
  assumes "opt_args options = Key args" and "opt_kwargs options = Some (pre @ bad # post)"
    and "CHR ''='' \<notin> set bad"
    and "map_of tasks name = Some task_obj" and "run task_obj = Some f"
    and "cast_positional B (parameters f) (type_hints f) 0
           (case args of None \<Rightarrow> [] | Some xs \<Rightarrow> xs) [] = Inr final_args"
    and "list_all (\<lambda>t. CHR ''='' \<in> set t \<and>
           (\<exists>val. cast_value B (snd (str_split_once CHR ''='' t))
                    (type_hints f (fst (str_split_once CHR ''='' t))) = Inr val)) pre"
  shows "run_task B tasks name options w = (Some InvalidKwargsFormat, w)"
proof -
  from assms(7,3) have
    "cast_keywords B (type_hints f) (pre @ bad # post) [] = Inl InvalidKwargsFormat"
    by (rule cast_keywords_first_malformed)
  with assms(1,2,4,5,6) show ?thesis by (simp add: run_task_def)
qed

text \<open>
  Without the key \<^verbatim>\<open>args\<close>, as on every call through the framework, a job that is found
  and has its entry point gets no further than the subscript \<^verbatim>\<open>options["args"]\<close>.
\<close>

lemma run_task_no_args_key:
  "opt_args options = NoKey \<Longrightarrow> map_of tasks name = Some task_obj \<Longrightarrow> run task_obj = Some f \<Longrightarrow>
   run_task B tasks name options w = (Some (KeyError ''args''), w)"
  by (simp add: run_task_def)

text \<open>
  C7. An invocation of the generic command with a job name that is not in the registry,
  or that names a job object without the entry point \<^verbatim>\<open>run\<close>, fails with the not-found
  error (of the missing job, or of the missing entry point), and the log of submitted
  calls and the output are unchanged: nothing is submitted.
\<close>

theorem run_task_not_found:
  "opt_task_name options = Some name \<Longrightarrow> name \<noteq> [] \<Longrightarrow>
   (map_of tasks name = None \<longrightarrow>
      Command_handle B tasks options w = (Some (TaskNotFound name), w))
   \<and> (\<forall>task_obj. map_of tasks name = Some task_obj \<and> run task_obj = None \<longrightarrow>
      Command_handle B tasks options w = (Some (NoRunMethod name), w))"
  by (simp add: Command_handle_def run_task_def)

theorem run_task_not_found_witness:
  "Command_handle ascii_builtins example_tasks
     \<lparr>opt_task_name = Some ''my_app.tasks.missing'', opt_args = NoKey, opt_kwargs = None\<rparr>
     empty_world = (Some (TaskNotFound ''my_app.tasks.missing''), empty_world)
   \<and> Command_handle ascii_builtins example_tasks
     \<lparr>opt_task_name = Some ''my_app.tasks.bare'', opt_args = Key (Some [''1'']), opt_kwargs = None\<rparr>
     empty_world = (Some (NoRunMethod ''my_app.tasks.bare''), empty_world)"
  using run_task_not_found [of "\<lparr>opt_task_name = Some ''my_app.tasks.missing'', opt_args = NoKey, opt_kwargs = None\<rparr>"
      "''my_app.tasks.missing''" example_tasks ascii_builtins empty_world]
    run_task_not_found [of "\<lparr>opt_task_name = Some ''my_app.tasks.bare'', opt_args = Key (Some [''1'']), opt_kwargs = None\<rparr>"
      "''my_app.tasks.bare''" example_tasks ascii_builtins empty_world]
  by (simp add: example_tasks_def bare_task_def)

text \<open>
  C8. The invocation \<^verbatim>\<open>celery_tasks my_app.tasks.sample_run --kwargs foo\<close> through the
  framework: the token \<open>foo\<close> has no \<open>=\<close>, the options hold no key \<^verbatim>\<open>args\<close>, and the
  invocation fails with the key error of \<^verbatim>\<open>options["args"]\<close>, raised before the keyword
  tokens are looked at, and not with the format error. Nothing is submitted.
\<close>

theorem run_task_kwargs_key_error:
  "CHR ''='' \<notin> set ''foo''
   \<and> Command_handle ascii_builtins example_tasks
       \<lparr>opt_task_name = Some ''my_app.tasks.sample_run'', opt_args = NoKey,
        opt_kwargs = Some [''foo'']\<rparr> empty_world
     = (Some (KeyError ''args''), empty_world)"
proof
  show "CHR ''='' \<notin> set ''foo''" by simp
  have "run_task ascii_builtins example_tasks ''my_app.tasks.sample_run''
       \<lparr>opt_task_name = Some ''my_app.tasks.sample_run'', opt_args = NoKey,
        opt_kwargs = Some [''foo'']\<rparr> empty_world
     = (Some (KeyError ''args''), empty_world)"
    by (rule run_task_no_args_key [of _ _ _ FakeTask sample_run])
       (simp_all add: example_tasks_def FakeTask_def)
  then show "Command_handle ascii_builtins example_tasks
       \<lparr>opt_task_name = Some ''my_app.tasks.sample_run'', opt_args = NoKey,
        opt_kwargs = Some [''foo'']\<rparr> empty_world
     = (Some (KeyError ''args''), empty_world)"
    by (simp add: Command_handle_def)
qed

section \<open>The dynamic command registrar: claims\<close>

lemma slugify_word: "list_all is_word (slugify_command_name s)"
  by (induction s rule: slugify_command_name.induct) (simp_all add: is_word_def)

lemma slugify_word_id: "list_all is_word s \<Longrightarrow> slugify_command_name s = s"
  by (induction s) simp_all

lemma slugify_word_prefix:
  "list_all is_word u \<Longrightarrow> slugify_command_name (u @ s) = u @ slugify_command_name s"
  by (induction u) simp_all

lemma slugify_one_underscore:
  assumes "r \<noteq> []" and "list_all (\<lambda>d. \<not> is_word d) r" and "v = [] \<or> is_word (hd v)"
  shows "slugify_command_name (r @ v) = CHR ''_'' # slugify_command_name v"
proof -
  from assms(1) obtain c r' where r: "r = c # r'" by (cases r) auto
  with assms(2) have c: "\<not> is_word c" and r': "\<forall>d \<in> set r'. \<not> is_word d"
    by (simp_all add: list_all_iff)
  from r' have "dropWhile (\<lambda>d. \<not> is_word d) (r' @ v) = dropWhile (\<lambda>d. \<not> is_word d) v"
    by (simp add: dropWhile_append2)
  also from assms(3) have "\<dots> = v" by (cases v) auto
  finally show ?thesis using c r by simp
qed

lemma register_command_commands:
  "commands (register_command command_name task_info task_obj reg) =
     AList.update (slugify_command_name command_name)
       (''django_celery_commands.management.commands._dynamic'', slugify_command_name command_name)
       (commands reg)"
  by (simp add: register_command_def Let_def)

lemma register_command_globals:
  "globals (register_command command_name task_info task_obj reg) =
     AList.update (slugify_command_name command_name)
       (DynamicCeleryCommand (slugify_command_name command_name) task_info task_obj)
       (globals reg)"
  by (simp add: register_command_def Let_def)

lemma parse_task_signature_func_name:
  "run t = Some f \<Longrightarrow> \<exists>info. parse_task_signature t = Inr info \<and> ti_func_name info = func_name f"
  by (simp add: parse_task_signature_def)

lemma ready_no_error:
  "list_all (\<lambda>(n, t). run t \<noteq> None) tasks \<Longrightarrow> fst (ready tasks reg) = None"
proof (induction tasks arbitrary: reg)
  case Nil
  then show ?case by simp
next
  case (Cons a tasks)
  obtain n t where a: "a = (n, t)" by (cases a)
  with Cons.prems obtain f where "run t = Some f" by auto
  then obtain info where "parse_task_signature t = Inr info"
    using parse_task_signature_func_name by blast
  with Cons a show ?case by simp
qed

lemma ready_keys:
  "list_all (\<lambda>(n, t). run t \<noteq> None) tasks \<Longrightarrow>
   fst ` set (commands (snd (ready tasks reg))) =
     fst ` set (commands reg) \<union>
     {slugify_command_name (func_name f) | n t f. (n, t) \<in> set tasks \<and> run t = Some f}"
proof (induction tasks arbitrary: reg)
  case Nil
  then show ?case by simp
next
  case (Cons a tasks)
  obtain n t where a: "a = (n, t)" by (cases a)
  with Cons.prems obtain f where f: "run t = Some f" by auto
  then obtain info where info: "parse_task_signature t = Inr info" "ti_func_name info = func_name f"
    using parse_task_signature_func_name by blast
  let ?reg = "register_command (func_name f) info t reg"
  from Cons.prems have "list_all (\<lambda>(n, t). run t \<noteq> None) tasks" by simp
  then have IH: "fst ` set (commands (snd (ready tasks ?reg))) =
     fst ` set (commands ?reg) \<union>
     {slugify_command_name (func_name f) | n t f. (n, t) \<in> set tasks \<and> run t = Some f}"
    by (rule Cons.IH)
  have step: "ready (a # tasks) reg = ready tasks ?reg" using a info by simp
  have keys: "fst ` set (commands ?reg) = {slugify_command_name (func_name f)} \<union> fst ` set (commands reg)"
    by (simp add: register_command_commands dom_update)
  have "{slugify_command_name (func_name f') | n' t' f'. (n', t') \<in> set (a # tasks) \<and> run t' = Some f'}
      = {slugify_command_name (func_name f)} \<union>
        {slugify_command_name (func_name f') | n' t' f'. (n', t') \<in> set tasks \<and> run t' = Some f'}"
    using a f by auto
  with IH keys step show ?case by auto
qed

lemma ready_distinct:
  "distinct (map fst (commands reg)) \<Longrightarrow> distinct (map fst (commands (snd (ready tasks reg))))"
proof (induction tasks arbitrary: reg)
  case Nil
  then show ?case by simp
next
  case (Cons a tasks)
  obtain n t where a: "a = (n, t)" by (cases a)
  show ?case
  proof (cases "parse_task_signature t")
    case (Inl e)
    with a Cons.prems show ?thesis by simp
  next
    case (Inr info)
    have "distinct (map fst (commands (register_command (ti_func_name info) info t reg)))"
      using Cons.prems by (simp add: register_command_commands distinct_update)
    then have "distinct (map fst (commands (snd (ready tasks (register_command (ti_func_name info) info t reg)))))"
      by (rule Cons.IH)
    with a Inr show ?thesis by simp
  qed
qed

lemma ready_keeps_entry:
  "list_all (\<lambda>(n, t). \<forall>f. run t = Some f \<longrightarrow> slugify_command_name (func_name f) \<noteq> key) tasks \<Longrightarrow>
   map_of (commands (snd (ready tasks reg))) key = map_of (commands reg) key
   \<and> map_of (globals (snd (ready tasks reg))) key = map_of (globals reg) key"
proof (induction tasks arbitrary: reg)
  case Nil
  then show ?case by simp
next
  case (Cons a tasks)
  obtain n t where a: "a = (n, t)" by (cases a)
  show ?case
  proof (cases "run t")
    case None
    then have "parse_task_signature t = Inl (AttributeError ''run'')"
      by (simp add: parse_task_signature_def)
    with a show ?thesis by simp
  next
    case (Some f)
    then obtain info where info: "parse_task_signature t = Inr info" "ti_func_name info = func_name f"
      using parse_task_signature_func_name by blast
    let ?reg = "register_command (func_name f) info t reg"
    from Cons.prems a Some have ne: "slugify_command_name (func_name f) \<noteq> key" by simp
    from Cons.prems have "list_all (\<lambda>(n, t). \<forall>f. run t = Some f \<longrightarrow> slugify_command_name (func_name f) \<noteq> key) tasks"
      by simp
    then have "map_of (commands (snd (ready tasks ?reg))) key = map_of (commands ?reg) key
      \<and> map_of (globals (snd (ready tasks ?reg))) key = map_of (globals ?reg) key"
      by (rule Cons.IH)
    moreover have "map_of (commands ?reg) key = map_of (commands reg) key"
      "map_of (globals ?reg) key = map_of (globals reg) key"
      using ne by (simp_all add: register_command_commands register_command_globals update_conv')
    moreover have "ready (a # tasks) reg = ready tasks ?reg" using a info by simp
    ultimately show ?thesis by simp
  qed
qed

lemma ready_append:
  "fst (ready pre reg) = None \<Longrightarrow> ready (pre @ post) reg = ready post (snd (ready pre reg))"
proof (induction pre arbitrary: reg)
  case Nil
  then show ?case by simp
next
  case (Cons a pre)
  obtain n t where a: "a = (n, t)" by (cases a)
  show ?case
  proof (cases "parse_task_signature t")
    case (Inl e)
    with a Cons.prems show ?thesis by simp
  next
    case (Inr info)
    with a Cons show ?thesis by simp
  qed
qed

lemma ready_last_wins:
  assumes all: "list_all (\<lambda>(n, t). run t \<noteq> None) tasks"
    and tasks: "tasks = pre @ (n, t) # post" and f: "run t = Some f"
    and info: "parse_task_signature t = Inr info"
    and post: "list_all (\<lambda>(n', t'). \<forall>f'. run t' = Some f' \<longrightarrow>
              slugify_command_name (func_name f') \<noteq> slugify_command_name (func_name f)) post"
  shows "map_of (commands (snd (ready tasks reg))) (slugify_command_name (func_name f)) =
              Some (''django_celery_commands.management.commands._dynamic'',
                    slugify_command_name (func_name f))
          \<and> map_of (globals (snd (ready tasks reg))) (slugify_command_name (func_name f)) =
              Some (DynamicCeleryCommand (slugify_command_name (func_name f)) info t)"
proof -
  let ?key = "slugify_command_name (func_name f)"
  let ?r = "register_command (func_name f) info t (snd (ready pre reg))"
  from all tasks have "list_all (\<lambda>(n, t). run t \<noteq> None) pre" by simp
  then have "fst (ready pre reg) = None" by (rule ready_no_error)
  then have "ready (pre @ (n, t) # post) reg = ready ((n, t) # post) (snd (ready pre reg))"
    by (rule ready_append)
  moreover from f info have name: "ti_func_name info = func_name f"
    by (auto simp: parse_task_signature_def)
  then have "ready ((n, t) # post) (snd (ready pre reg)) = ready post ?r"
    using info by simp
  ultimately have step: "ready tasks reg = ready post ?r"
    by (simp only: tasks)
  from post have "map_of (commands (snd (ready post ?r))) ?key = map_of (commands ?r) ?key
      \<and> map_of (globals (snd (ready post ?r))) ?key = map_of (globals ?r) ?key"
    by (rule ready_keeps_entry)
  moreover have "map_of (commands ?r) ?key =
      Some (''django_celery_commands.management.commands._dynamic'', ?key)"
    by (simp add: register_command_commands update_conv')
  moreover have "map_of (globals ?r) ?key = Some (DynamicCeleryCommand ?key info t)"
    by (simp add: register_command_globals update_conv')
  ultimately show ?thesis by (simp only: step)
qed

lemma parse_FakeTask:
  "parse_task_signature (FakeTask\<lparr>task_name := nm\<rparr>) =
     Inr \<lparr>ti_name = nm, ti_func_name = ''sample_run'',
          ti_params = [\<lparr>pi_name = ''a'', pi_annotation = Some TInt, pi_default = VNone,
                        pi_required = True\<rparr>,
                       \<lparr>pi_name = ''b'', pi_annotation = Some TInt, pi_default = VInt 3,
                        pi_required = False\<rparr>],
          ti_docstring = ''Sample docstring.''\<rparr>"
  by (simp add: parse_task_signature_def param_descriptor_def FakeTask_def sample_run_def)

lemma parse_purge_task: "parse_task_signature purge_task = Inr purge_info"
  by (simp add: parse_task_signature_def param_descriptor_def purge_task_def purge_def
        purge_info_def)

text \<open>
  C9, as stated, fails: the job of the tests is named \<open>my_app.tasks.sample_run\<close>, whose
  slug is \<open>my_app_tasks_sample_run\<close>, and start-up registers it under \<open>sample_run\<close>, the
  name of its function.
\<close>

theorem ready_key_counterexample:
  "slugify_command_name ''my_app.tasks.sample_run'' = ''my_app_tasks_sample_run''
   \<and> map fst (commands (snd (ready [(''my_app.tasks.sample_run'', FakeTask :: (int \<times> nat) task)]
                             empty_registry))) = [''sample_run'']"
proof
  show "slugify_command_name ''my_app.tasks.sample_run'' = ''my_app_tasks_sample_run''"
    by (simp add: is_word_def)
  have "parse_task_signature (FakeTask :: (int \<times> nat) task) =
      parse_task_signature (FakeTask\<lparr>task_name := ''my_app.tasks.sample_run''\<rparr>)"
    by (simp add: FakeTask_def)
  then show "map fst (commands (snd (ready [(''my_app.tasks.sample_run'', FakeTask :: (int \<times> nat) task)]
                             empty_registry))) = [''sample_run'']"
    by (simp add: parse_FakeTask register_command_commands is_word_def empty_registry_def)
qed

text \<open>
  C9, amended. For every discovered job, start-up registers its dynamic command under
  the slug of the name of the job's function (the \<^verbatim>\<open>__name__\<close> of its entry point), in
  which every maximal run of non-word characters is replaced by one underscore: the slug
  has word characters only and a name of word characters is its own slug. One
  registration inserts exactly one entry when the key is new and overwrites the entry in
  place when the key exists, so the keys stay distinct. When the jobs all have an entry
  point, start-up raises no error, the keys afterwards are the keys before and the slugs
  of the function names, and the entry of a key is that of the last job with this key:
  a later registration overwrites an earlier one silently.
\<close>

theorem ready_registers_function_names:
  "list_all (\<lambda>(n, t). run t \<noteq> None) tasks \<Longrightarrow>
   fst (ready tasks reg) = None
   \<and> fst ` set (commands (snd (ready tasks reg))) =
       fst ` set (commands reg) \<union>
       {slugify_command_name (func_name f) | n t f. (n, t) \<in> set tasks \<and> run t = Some f}
   \<and> (distinct (map fst (commands reg)) \<longrightarrow>
        distinct (map fst (commands (snd (ready tasks reg)))))
   \<and> (\<forall>pre n t f info post.
        tasks = pre @ (n, t) # post \<and> run t = Some f \<and> parse_task_signature t = Inr info
        \<and> list_all (\<lambda>(n', t'). \<forall>f'. run t' = Some f' \<longrightarrow>
              slugify_command_name (func_name f') \<noteq> slugify_command_name (func_name f)) post
        \<longrightarrow> map_of (commands (snd (ready tasks reg))) (slugify_command_name (func_name f)) =
              Some (''django_celery_commands.management.commands._dynamic'',
                    slugify_command_name (func_name f))
          \<and> map_of (globals (snd (ready tasks reg))) (slugify_command_name (func_name f)) =
              Some (DynamicCeleryCommand (slugify_command_name (func_name f)) info t))
   \<and> (\<forall>c ti t r.
        map fst (commands (register_command c ti t r)) =
          (if slugify_command_name c \<in> set (map fst (commands r)) then map fst (commands r)
           else map fst (commands r) @ [slugify_command_name c]))
   \<and> (\<forall>c. list_all is_word (slugify_command_name c)
           \<and> (list_all is_word c \<longrightarrow> slugify_command_name c = c))
   \<and> (\<forall>u r v. list_all is_word u \<and> r \<noteq> [] \<and> list_all (\<lambda>d. \<not> is_word d) r
           \<and> (v = [] \<or> is_word (hd v))
        \<longrightarrow> slugify_command_name (u @ r @ v) = u @ CHR ''_'' # slugify_command_name v)"
proof (intro conjI allI impI)
  assume all: "list_all (\<lambda>(n, t). run t \<noteq> None) tasks"
  show "fst (ready tasks reg) = None" using all by (rule ready_no_error)
  show "fst ` set (commands (snd (ready tasks reg))) =
       fst ` set (commands reg) \<union>
       {slugify_command_name (func_name f) | n t f. (n, t) \<in> set tasks \<and> run t = Some f}"
    using all by (rule ready_keys)
  show "distinct (map fst (commands (snd (ready tasks reg))))"
    if "distinct (map fst (commands reg))"
    using that by (rule ready_distinct)
  show "map_of (commands (snd (ready tasks reg))) (slugify_command_name (func_name f)) =
              Some (''django_celery_commands.management.commands._dynamic'',
                    slugify_command_name (func_name f))"
    if "tasks = pre @ (n, t) # post \<and> run t = Some f \<and> parse_task_signature t = Inr info
        \<and> list_all (\<lambda>(n', t'). \<forall>f'. run t' = Some f' \<longrightarrow>
              slugify_command_name (func_name f') \<noteq> slugify_command_name (func_name f)) post"
    for pre n t f info post
    using ready_last_wins [OF all, of pre n t post f info reg] that by (elim conjE) simp
  show "map_of (globals (snd (ready tasks reg))) (slugify_command_name (func_name f)) =
              Some (DynamicCeleryCommand (slugify_command_name (func_name f)) info t)"
    if "tasks = pre @ (n, t) # post \<and> run t = Some f \<and> parse_task_signature t = Inr info
        \<and> list_all (\<lambda>(n', t'). \<forall>f'. run t' = Some f' \<longrightarrow>
              slugify_command_name (func_name f') \<noteq> slugify_command_name (func_name f)) post"
    for pre n t f info post
    using ready_last_wins [OF all, of pre n t post f info reg] that by (elim conjE) simp
  show "map fst (commands (register_command c ti t r)) =
          (if slugify_command_name c \<in> set (map fst (commands r)) then map fst (commands r)
           else map fst (commands r) @ [slugify_command_name c])" for c ti t r
    unfolding register_command_commands by (rule update_keys)
  show "list_all is_word (slugify_command_name c)" for c by (rule slugify_word)
  show "slugify_command_name c = c" if "list_all is_word c" for c
    using that by (rule slugify_word_id)
  show "slugify_command_name (u @ r @ v) = u @ CHR ''_'' # slugify_command_name v"
    if "list_all is_word u \<and> r \<noteq> [] \<and> list_all (\<lambda>d. \<not> is_word d) r
           \<and> (v = [] \<or> is_word (hd v))" for u r v
    using that by (simp add: slugify_word_prefix slugify_one_underscore)
qed

theorem ready_registers_function_names_witness:
  "fst (ready [(''my_app.tasks.sample_run'', FakeTask :: (int \<times> nat) task),
               (''my_app.tasks.purge'', purge_task),
               (''other_app.tasks.sample_run'', FakeTask\<lparr>task_name := ''other_app.tasks.sample_run''\<rparr>)]
          empty_registry) = None
   \<and> map fst (commands (snd (ready [(''my_app.tasks.sample_run'', FakeTask :: (int \<times> nat) task),
               (''my_app.tasks.purge'', purge_task),
               (''other_app.tasks.sample_run'', FakeTask\<lparr>task_name := ''other_app.tasks.sample_run''\<rparr>)]
          empty_registry))) = [''sample_run'', ''purge'']
   \<and> map (\<lambda>(k, c). (k, task_name (cc_task_obj c)))
        (globals (snd (ready [(''my_app.tasks.sample_run'', FakeTask :: (int \<times> nat) task),
               (''my_app.tasks.purge'', purge_task),
               (''other_app.tasks.sample_run'', FakeTask\<lparr>task_name := ''other_app.tasks.sample_run''\<rparr>)]
          empty_registry)))
       = [(''sample_run'', ''other_app.tasks.sample_run''), (''purge'', ''my_app.tasks.purge'')]"
proof -
  let ?tasks = "[(''my_app.tasks.sample_run'', FakeTask :: (int \<times> nat) task),
               (''my_app.tasks.purge'', purge_task),
               (''other_app.tasks.sample_run'', FakeTask\<lparr>task_name := ''other_app.tasks.sample_run''\<rparr>)]"
  have all: "list_all (\<lambda>(n, t). run t \<noteq> None) ?tasks"
    by (simp add: FakeTask_def purge_task_def)
  have 1: "fst (ready ?tasks empty_registry) = None"
    using ready_registers_function_names [OF all, of empty_registry] by (rule conjunct1)
  have same: "parse_task_signature (FakeTask :: (int \<times> nat) task) =
      parse_task_signature (FakeTask\<lparr>task_name := ''my_app.tasks.sample_run''\<rparr>)"
    by (simp add: FakeTask_def)
  have 2: "map fst (commands (snd (ready ?tasks empty_registry))) = [''sample_run'', ''purge'']"
    by (simp add: same parse_FakeTask parse_purge_task purge_info_def register_command_commands
          is_word_def empty_registry_def)
  have tn: "task_name (purge_task :: (int \<times> nat) task) = ''my_app.tasks.purge''"
    by (simp add: purge_task_def)
  have 3: "map (\<lambda>(k, c). (k, task_name (cc_task_obj c)))
        (globals (snd (ready ?tasks empty_registry)))
       = [(''sample_run'', ''other_app.tasks.sample_run''), (''purge'', ''my_app.tasks.purge'')]"
    by (simp add: same parse_FakeTask parse_purge_task purge_info_def register_command_globals
          is_word_def empty_registry_def DynamicCeleryCommand_def tn)
  from 1 2 3 show ?thesis by (intro conjI)
qed

section \<open>The handle of a dynamic command: claims\<close>

lemma cast_option_None: "cast_option B param VNone = Inr VNone"
  by (simp add: cast_option_def split: option.splits)

lemma handle_params_keys:
  "handle_params B params options acc = Inr kw \<Longrightarrow>
   fst ` set kw = fst ` set acc \<union> pi_name ` set params"
proof (induction params arbitrary: acc)
  case Nil
  then show ?case by simp
next
  case (Cons p params)
  from Cons.prems obtain val where val: "cast_option B p (options_get options (pi_name p)) = Inr val"
    and rest: "handle_params B params options (AList.update (pi_name p) val acc) = Inr kw"
    by (auto split: sum.splits)
  from rest have "fst ` set kw = fst ` set (AList.update (pi_name p) val acc) \<union> pi_name ` set params"
    by (rule Cons.IH)
  then show ?case by (simp add: dom_update)
qed

lemma handle_params_distinct:
  "handle_params B params options acc = Inr kw \<Longrightarrow> distinct (map fst acc) \<Longrightarrow>
   distinct (map fst kw)"
proof (induction params arbitrary: acc)
  case Nil
  then show ?case by simp
next
  case (Cons p params)
  from Cons.prems(1) obtain val where
    rest: "handle_params B params options (AList.update (pi_name p) val acc) = Inr kw"
    by (auto split: sum.splits)
  moreover from Cons.prems(2) have "distinct (map fst (AList.update (pi_name p) val acc))"
    by (rule distinct_update)
  ultimately show ?case by (rule Cons.IH)
qed

lemma handle_params_order:
  "handle_params B params options acc = Inr kw \<Longrightarrow>
   distinct (map fst acc @ map pi_name params) \<Longrightarrow>
   map fst kw = map fst acc @ map pi_name params"
proof (induction params arbitrary: acc)
  case Nil
  then show ?case by simp
next
  case (Cons p params)
  from Cons.prems(1) obtain val where
    rest: "handle_params B params options (AList.update (pi_name p) val acc) = Inr kw"
    by (auto split: sum.splits)
  from Cons.prems(2) have new: "pi_name p \<notin> set (map fst acc)" by auto
  then have keys: "map fst (AList.update (pi_name p) val acc) = map fst acc @ [pi_name p]"
    by (simp add: update_keys)
  with Cons.prems(2) have "distinct (map fst (AList.update (pi_name p) val acc) @ map pi_name params)"
    by auto
  with rest have "map fst kw = map fst (AList.update (pi_name p) val acc) @ map pi_name params"
    by (rule Cons.IH)
  with keys show ?case by simp
qed

lemma handle_params_None:
  "handle_params B params options acc = Inr kw \<Longrightarrow> options_get options n = VNone \<Longrightarrow>
   n \<in> pi_name ` set params \<or> map_of acc n = Some VNone \<Longrightarrow>
   map_of kw n = Some VNone"
proof (induction params arbitrary: acc)
  case Nil
  then show ?case by simp
next
  case (Cons p params)
  from Cons.prems(1) obtain val where val: "cast_option B p (options_get options (pi_name p)) = Inr val"
    and rest: "handle_params B params options (AList.update (pi_name p) val acc) = Inr kw"
    by (auto split: sum.splits)
  let ?acc = "AList.update (pi_name p) val acc"
  have "n \<in> pi_name ` set params \<or> map_of ?acc n = Some VNone"
  proof (cases "n = pi_name p")
    case True
    with val Cons.prems(2) have "val = VNone" by (simp add: cast_option_None)
    with True show ?thesis by (simp add: update_conv')
  next
    case False
    with Cons.prems(3) show ?thesis by (auto simp: update_conv')
  qed
  with rest Cons.prems(2) show ?case by (rule Cons.IH)
qed

lemma DynamicCeleryCommand_handle_ok:
  "DynamicCeleryCommand_handle B task_info task_obj options w = (None, w') \<Longrightarrow>
   \<exists>kw. handle_params B (ti_params task_info) options [] = Inr kw
     \<and> submitted w' = submitted w @
          [\<lparr>call_task = task_name task_obj, call_args = [], call_kwargs = kw\<rparr>]"
  by (auto simp: DynamicCeleryCommand_handle_def delay_def split: sum.splits)

text \<open>
  C10. In the handle of a dynamic command, a parameter whose option value is none is not
  cast, whatever its declared type, and none is stored for it. When the handle submits
  the call, the keyword arguments have exactly the names of the declared parameters as
  keys, each once (in declaration order when the names are distinct), and hold none for
  every parameter whose option value is none.
\<close>

theorem handle_none_values:
  "cast_option B param VNone = Inr VNone
   \<and> (DynamicCeleryCommand_handle B task_info task_obj options w = (None, w') \<longrightarrow>
       (\<exists>kw. submitted w' = submitted w @
                [\<lparr>call_task = task_name task_obj, call_args = [], call_kwargs = kw\<rparr>]
          \<and> fst ` set kw = pi_name ` set (ti_params task_info)
          \<and> distinct (map fst kw)
          \<and> (distinct (map pi_name (ti_params task_info)) \<longrightarrow>
               map fst kw = map pi_name (ti_params task_info))
          \<and> (\<forall>p \<in> set (ti_params task_info).
                options_get options (pi_name p) = VNone \<longrightarrow> map_of kw (pi_name p) = Some VNone)))"
proof (intro conjI impI)
  show "cast_option B param VNone = Inr VNone" by (rule cast_option_None)
next
  assume "DynamicCeleryCommand_handle B task_info task_obj options w = (None, w')"
  then obtain kw where kw: "handle_params B (ti_params task_info) options [] = Inr kw"
    and sub: "submitted w' = submitted w @
          [\<lparr>call_task = task_name task_obj, call_args = [], call_kwargs = kw\<rparr>]"
    using DynamicCeleryCommand_handle_ok by blast
  from kw have 1: "fst ` set kw = pi_name ` set (ti_params task_info)"
    by (simp add: handle_params_keys)
  from kw have 2: "distinct (map fst kw)" by (rule handle_params_distinct) simp
  have 3: "map fst kw = map pi_name (ti_params task_info)"
    if "distinct (map pi_name (ti_params task_info))"
    using handle_params_order [OF kw] that by simp
  have 4: "map_of kw (pi_name p) = Some VNone"
    if "p \<in> set (ti_params task_info)" and "options_get options (pi_name p) = VNone" for p
    using kw that(2) by (rule handle_params_None) (use that(1) in simp)
  from sub 1 2 3 4 show "\<exists>kw. submitted w' = submitted w @
                [\<lparr>call_task = task_name task_obj, call_args = [], call_kwargs = kw\<rparr>]
          \<and> fst ` set kw = pi_name ` set (ti_params task_info)
          \<and> distinct (map fst kw)
          \<and> (distinct (map pi_name (ti_params task_info)) \<longrightarrow>
               map fst kw = map pi_name (ti_params task_info))
          \<and> (\<forall>p \<in> set (ti_params task_info).
                options_get options (pi_name p) = VNone \<longrightarrow> map_of kw (pi_name p) = Some VNone)"
    by (intro exI [of _ kw] conjI impI ballI)
qed

theorem handle_none_values_witness:
  "DynamicCeleryCommand_handle ascii_builtins purge_info purge_task
       [''dry_run'' \<mapsto> VStr ''yes''] empty_world
     = (None, \<lparr>submitted =
                 [\<lparr>call_task = ''my_app.tasks.purge'', call_args = [],
                   call_kwargs = [(''dry_run'', VBool True), (''ids'', VNone), (''note'', VNone)]\<rparr>],
               stdout = [CalledTask ''my_app.tasks.purge'' 0]\<rparr>)
   \<and> map fst (call_kwargs (last (submitted
         (snd (DynamicCeleryCommand_handle ascii_builtins purge_info purge_task
                [''dry_run'' \<mapsto> VStr ''yes''] empty_world)))))
       = [''dry_run'', ''ids'', ''note'']
   \<and> map_of (call_kwargs (last (submitted
         (snd (DynamicCeleryCommand_handle ascii_builtins purge_info purge_task
                [''dry_run'' \<mapsto> VStr ''yes''] empty_world)))))
         ''ids'' = Some VNone"
proof -
  let ?opts = "[''dry_run'' \<mapsto> VStr ''yes''] :: string \<rightharpoonup> (int \<times> nat) pyval"
  let ?w = "\<lparr>submitted =
                 [\<lparr>call_task = ''my_app.tasks.purge'', call_args = [],
                   call_kwargs = [(''dry_run'', VBool True), (''ids'', VNone), (''note'', VNone)]\<rparr>],
               stdout = [CalledTask ''my_app.tasks.purge'' 0]\<rparr> :: (int \<times> nat) world"
  have ev: "DynamicCeleryCommand_handle ascii_builtins purge_info purge_task
       ?opts empty_world = (None, ?w)"
    by (simp add: DynamicCeleryCommand_handle_def purge_info_def purge_task_def empty_world_def
          delay_def cast_option_def options_get_def)
  have d: "distinct (map pi_name (ti_params (purge_info :: (int \<times> nat) task_info)))"
    by (simp add: purge_info_def)
  have ids: "\<lparr>pi_name = ''ids'', pi_annotation = Some (TList [TInt]), pi_default = VNone,
          pi_required = True\<rparr> \<in> set (ti_params (purge_info :: (int \<times> nat) task_info))"
    by (simp add: purge_info_def)
  have none: "options_get ?opts ''ids'' = (VNone :: (int \<times> nat) pyval)"
    by (simp add: options_get_def)
  from handle_none_values [of ascii_builtins undefined purge_info purge_task
      ?opts empty_world ?w, THEN conjunct2, rule_format, OF ev]
  obtain kw where all: "submitted ?w = submitted (empty_world :: (int \<times> nat) world) @
                [\<lparr>call_task = task_name (purge_task :: (int \<times> nat) task), call_args = [], call_kwargs = kw\<rparr>]
          \<and> fst ` set kw = pi_name ` set (ti_params (purge_info :: (int \<times> nat) task_info))
          \<and> distinct (map fst kw)
          \<and> (distinct (map pi_name (ti_params (purge_info :: (int \<times> nat) task_info))) \<longrightarrow>
               map fst kw = map pi_name (ti_params (purge_info :: (int \<times> nat) task_info)))
          \<and> (\<forall>p \<in> set (ti_params (purge_info :: (int \<times> nat) task_info)).
                options_get ?opts (pi_name p) = VNone \<longrightarrow> map_of kw (pi_name p) = Some VNone)"
    ..
  from all have sub: "submitted ?w = submitted (empty_world :: (int \<times> nat) world) @
                [\<lparr>call_task = task_name (purge_task :: (int \<times> nat) task), call_args = [], call_kwargs = kw\<rparr>]"
    by (rule conjunct1)
  from all have ord: "distinct (map pi_name (ti_params (purge_info :: (int \<times> nat) task_info))) \<longrightarrow>
               map fst kw = map pi_name (ti_params (purge_info :: (int \<times> nat) task_info))"
    by (elim conjE)
  from all have nn: "\<forall>p \<in> set (ti_params (purge_info :: (int \<times> nat) task_info)).
                options_get ?opts (pi_name p) = VNone \<longrightarrow> map_of kw (pi_name p) = Some VNone"
    by (elim conjE)
  from ord d have k: "map fst kw = [''dry_run'', ''ids'', ''note'']" by (simp add: purge_info_def)
  from nn ids have "options_get ?opts (pi_name \<lparr>pi_name = ''ids'',
      pi_annotation = Some (TList [TInt]), pi_default = VNone :: (int \<times> nat) pyval,
      pi_required = True\<rparr>) = VNone \<longrightarrow>
    map_of kw (pi_name \<lparr>pi_name = ''ids'', pi_annotation = Some (TList [TInt]),
      pi_default = VNone :: (int \<times> nat) pyval, pi_required = True\<rparr>) = Some VNone"
    by (rule bspec)
  then have n: "map_of kw ''ids'' = Some VNone" using none by simp
  from sub have c: "call_kwargs (last (submitted ?w)) = kw"
    by (simp add: empty_world_def)
  have snd_ev: "snd (DynamicCeleryCommand_handle ascii_builtins purge_info purge_task
                ?opts empty_world) = ?w"
    by (simp only: ev snd_conv)
  from k c have 1: "map fst (call_kwargs (last (submitted ?w))) = [''dry_run'', ''ids'', ''note'']"
    by (simp only:)
  from n c have 2: "map_of (call_kwargs (last (submitted ?w))) ''ids'' = Some VNone"
    by (simp only:)
  show ?thesis unfolding snd_ev by (rule conjI [OF ev conjI [OF 1 2]])
qed



lemma parse_FakeTask_info: "parse_task_signature FakeTask = Inr sample_run_info"
  by (simp add: parse_task_signature_def param_descriptor_def FakeTask_def sample_run_def
        sample_run_info_def)




end
